theory Spec2Isabelle
  imports Complex_Main
begin

section \<open>The premium savings estimator of \<open>src/App.tsx\<close>\<close>

text \<open>
  The component \<open>App\<close> holds one \<open>SavingsInput\<close> in its state and, on every render,
  derives eleven constants from it (lines 32 to 44 of \<open>src/App.tsx\<close>): five factors
  looked up in constant tables, two products, the clamped savings multiplier, the rounded new
  premium and the monthly and annual savings. This theory embeds that computation.

  Numbers. A JavaScript number is an IEEE-754 binary64 value. A finite one is modelled by the
  real number it denotes; the two infinities and \<open>NaN\<close> are values of their own. Every
  literal and every result of \<open>*\<close>, \<open>/\<close> and \<open>-\<close> is rounded to the nearest binary64 value,
  ties to the even significand, with gradual underflow and with overflow to an infinity,
  as the language prescribes. Only the sign of zero is left out.
\<close>

subsection \<open>The input record\<close>

datatype AgeRange = Age_16_19 | Age_20_24 | Age_25_29 | Age_30_64 | Age_65_74 | Age_75_plus

datatype VehicleType = sedan | suv | truck | sports | luxury | electric

datatype CoverageLevel = minimum | standard | full

datatype DrivingHistory = clean | minor

text \<open>
  \<open>currentPremium\<close> is a number of the program, so a binary64 value: the properties below
  assume \<open>is_double (currentPremium values)\<close>.
\<close>

record SavingsInput =
  ageRange :: AgeRange
  state :: string
  vehicleType :: VehicleType
  coverageLevel :: CoverageLevel
  drivingHistory :: DrivingHistory
  currentPremium :: real

subsection \<open>Rounding to binary64\<close>

text \<open>The integer nearest to \<open>x\<close>; of two equally near, the even one.\<close>

definition rne :: "real \<Rightarrow> int" where
  "rne x =
     (let f = \<lfloor>x\<rfloor>; d = x - of_int f
      in if d < 1 / 2 then f else if 1 / 2 < d then f + 1 else if even f then f else f + 1)"

text \<open>
  The binary exponent of a positive number, \<open>floor (log2 x)\<close>, found by halving
  a number that is at least 1 and by doubling a number below 1.
\<close>

function ilog2_up :: "real \<Rightarrow> int" where
  "ilog2_up x = (if 2 \<le> x then ilog2_up (x / 2) + 1 else 0)"
  by pat_completeness auto
termination
proof (relation "measure (\<lambda>x. nat \<lfloor>x\<rfloor>)")
  show "wf (measure (\<lambda>x::real. nat \<lfloor>x\<rfloor>))" by simp
next
  fix x :: real
  assume "2 \<le> x"
  then have "\<lfloor>x / 2\<rfloor> < \<lfloor>x\<rfloor>" by linarith
  moreover have "0 < \<lfloor>x\<rfloor>" using \<open>2 \<le> x\<close> by linarith
  ultimately show "(x / 2, x) \<in> measure (\<lambda>x. nat \<lfloor>x\<rfloor>)" by simp
qed

function ilog2_down :: "real \<Rightarrow> int" where
  "ilog2_down x = (if 0 < x \<and> x < 1 then ilog2_down (2 * x) - 1 else 0)"
  by pat_completeness auto
termination
proof (relation "measure (\<lambda>x. nat \<lfloor>1 / x\<rfloor>)")
  show "wf (measure (\<lambda>x::real. nat \<lfloor>1 / x\<rfloor>))" by simp
next
  fix x :: real
  assume a: "0 < x \<and> x < 1"
  define t where "t = 1 / x"
  have t: "1 < t" using a by (simp add: t_def)
  have "t / 2 < of_int \<lfloor>t\<rfloor>"
  proof (cases "2 \<le> t")
    case True
    then show ?thesis by linarith
  next
    case False
    then have "\<lfloor>t\<rfloor> = 1" using t by linarith
    then show ?thesis using False by simp
  qed
  then have "\<lfloor>t / 2\<rfloor> < \<lfloor>t\<rfloor>" by (simp add: floor_less_iff)
  then have "\<lfloor>(1 / x) / 2\<rfloor> < \<lfloor>1 / x\<rfloor>" by (simp only: t_def)
  moreover have "1 / (2 * x) = (1 / x) / 2" by simp
  moreover have "0 < \<lfloor>1 / x\<rfloor>" using t unfolding t_def by linarith
  ultimately show "(2 * x, x) \<in> measure (\<lambda>x. nat \<lfloor>1 / x\<rfloor>)" by (simp add: mult.commute)
qed

declare ilog2_up.simps [simp del] ilog2_down.simps [simp del]

definition expo :: "real \<Rightarrow> int" where
  "expo x = (if 1 \<le> x then ilog2_up x else ilog2_down x)"

text \<open>
  The distance between neighbouring binary64 values around \<open>x\<close>: the significand has 53
  bits, and below \<open>2 powi (- 1022)\<close> the subnormal values are \<open>2 powi (- 1074)\<close> apart.
\<close>

definition ulp :: "real \<Rightarrow> real" where
  "ulp x = 2 powi (max (expo \<bar>x\<bar>) (- 1022) - 52)"

text \<open>Rounding to the nearest value of that grid, the exponent not yet bounded from above.\<close>

definition fl :: "real \<Rightarrow> real" where
  "fl x = of_int (rne (x / ulp x)) * ulp x"

text \<open>
  A value that rounding leaves at this magnitude or beyond is too large for binary64. The
  finite binary64 values are the fixed points of the rounding below it.
\<close>

definition overflow_threshold :: real where
  "overflow_threshold = 2 ^ 1024"

definition is_double :: "real \<Rightarrow> bool" where
  "is_double x \<longleftrightarrow> fl x = x \<and> \<bar>x\<bar> < overflow_threshold"

subsection \<open>JavaScript values and operators\<close>

text \<open>
  The values that the computation can meet: a finite number, the infinities, \<open>NaN\<close>,
  \<open>undefined\<close> (the result of reading a property that an object neither owns nor
  inherits), and an object or function (what reading an inherited property of
  \<open>Object.prototype\<close> gives).
\<close>

datatype jsval = Num real | PosInf | NegInf | NaN | Undefined | Object

text \<open>
  The binary64 result of an operation whose exact result is \<open>x\<close>: a rounded value at or
  beyond the overflow threshold is an infinity.
\<close>

definition to_double :: "real \<Rightarrow> jsval" where
  "to_double x =
     (let y = fl x
      in if overflow_threshold \<le> y then PosInf
         else if y \<le> - overflow_threshold then NegInf
         else Num y)"

text \<open>A numeric literal of the source.\<close>

definition lit :: "real \<Rightarrow> jsval" where
  "lit x = to_double x"

text \<open>
  \<open>ToBoolean\<close>: zero, \<open>NaN\<close> and \<open>undefined\<close> are falsy; the other numbers, the
  infinities and objects are truthy.
\<close>

fun truthy :: "jsval \<Rightarrow> bool" where
  "truthy (Num v) = (v \<noteq> 0)"
| "truthy PosInf = True"
| "truthy NegInf = True"
| "truthy NaN = False"
| "truthy Undefined = False"
| "truthy Object = True"

text \<open>\<open>a || b\<close>\<close>

definition js_or :: "jsval \<Rightarrow> jsval \<Rightarrow> jsval" where
  "js_or a b = (if truthy a then a else b)"

text \<open>
  The arithmetic operators convert both operands with \<open>ToNumber\<close>, which sends
  \<open>undefined\<close>, plain objects and functions to \<open>NaN\<close>, and \<open>NaN\<close> is absorbing.
  Where the sign of a zero decides the sign of an infinity (a division by zero), the zero
  counts as positive.
\<close>

fun js_mul :: "jsval \<Rightarrow> jsval \<Rightarrow> jsval" where
  "js_mul (Num a) (Num b) = to_double (a * b)"
| "js_mul (Num a) PosInf = (if a = 0 then NaN else if 0 < a then PosInf else NegInf)"
| "js_mul (Num a) NegInf = (if a = 0 then NaN else if 0 < a then NegInf else PosInf)"
| "js_mul PosInf (Num b) = (if b = 0 then NaN else if 0 < b then PosInf else NegInf)"
| "js_mul NegInf (Num b) = (if b = 0 then NaN else if 0 < b then NegInf else PosInf)"
| "js_mul PosInf PosInf = PosInf"
| "js_mul PosInf NegInf = NegInf"
| "js_mul NegInf PosInf = NegInf"
| "js_mul NegInf NegInf = PosInf"
| "js_mul _ _ = NaN"

fun js_div :: "jsval \<Rightarrow> jsval \<Rightarrow> jsval" where
  "js_div (Num a) (Num b) =
     (if b = 0 then (if a = 0 then NaN else if 0 < a then PosInf else NegInf)
      else to_double (a / b))"
| "js_div (Num a) PosInf = Num 0"
| "js_div (Num a) NegInf = Num 0"
| "js_div PosInf (Num b) = (if 0 \<le> b then PosInf else NegInf)"
| "js_div NegInf (Num b) = (if 0 \<le> b then NegInf else PosInf)"
| "js_div _ _ = NaN"

fun js_sub :: "jsval \<Rightarrow> jsval \<Rightarrow> jsval" where
  "js_sub (Num a) (Num b) = to_double (a - b)"
| "js_sub (Num a) PosInf = NegInf"
| "js_sub (Num a) NegInf = PosInf"
| "js_sub PosInf (Num b) = PosInf"
| "js_sub NegInf (Num b) = NegInf"
| "js_sub PosInf NegInf = PosInf"
| "js_sub NegInf PosInf = NegInf"
| "js_sub _ _ = NaN"

text \<open>\<open>Math.max\<close> and \<open>Math.min\<close> return \<open>NaN\<close> as soon as one argument is \<open>NaN\<close>.\<close>

fun Math_max :: "jsval \<Rightarrow> jsval \<Rightarrow> jsval" where
  "Math_max (Num a) (Num b) = Num (max a b)"
| "Math_max PosInf (Num b) = PosInf"
| "Math_max (Num a) PosInf = PosInf"
| "Math_max PosInf PosInf = PosInf"
| "Math_max PosInf NegInf = PosInf"
| "Math_max NegInf PosInf = PosInf"
| "Math_max NegInf (Num b) = Num b"
| "Math_max (Num a) NegInf = Num a"
| "Math_max NegInf NegInf = NegInf"
| "Math_max _ _ = NaN"

fun Math_min :: "jsval \<Rightarrow> jsval \<Rightarrow> jsval" where
  "Math_min (Num a) (Num b) = Num (min a b)"
| "Math_min NegInf (Num b) = NegInf"
| "Math_min (Num a) NegInf = NegInf"
| "Math_min NegInf NegInf = NegInf"
| "Math_min PosInf NegInf = NegInf"
| "Math_min NegInf PosInf = NegInf"
| "Math_min PosInf (Num b) = Num b"
| "Math_min (Num a) PosInf = Num a"
| "Math_min PosInf PosInf = PosInf"
| "Math_min _ _ = NaN"

text \<open>
  \<open>Math.round(x)\<close> is the integer nearest to \<open>x\<close>; of two integers equally near it is the
  one towards \<open>+\<infinity>\<close>, that is \<open>floor (x + 1/2)\<close>, computed without rounding error (a
  binary64 value of magnitude \<open>2 ^ 52\<close> or more is an integer already). An infinity and
  \<open>NaN\<close> are returned unchanged.
\<close>

fun Math_round :: "jsval \<Rightarrow> jsval" where
  "Math_round (Num a) = Num (of_int \<lfloor>a + 1 / 2\<rfloor>)"
| "Math_round PosInf = PosInf"
| "Math_round NegInf = NegInf"
| "Math_round _ = NaN"

subsection \<open>The constant tables\<close>

definition STATES :: "string list" where
  "STATES = [''AL'', ''AK'', ''AZ'', ''AR'', ''CA'', ''CO'', ''CT'', ''DE'', ''FL'', ''GA'',
     ''HI'', ''ID'', ''IL'', ''IN'', ''IA'', ''KS'', ''KY'', ''LA'', ''ME'', ''MD'', ''MA'',
     ''MI'', ''MN'', ''MS'', ''MO'', ''MT'', ''NE'', ''NV'', ''NH'', ''NJ'', ''NM'', ''NY'',
     ''NC'', ''ND'', ''OH'', ''OK'', ''OR'', ''PA'', ''RI'', ''SC'', ''SD'', ''TN'', ''TX'',
     ''UT'', ''VT'', ''VA'', ''WA'', ''WV'', ''WI'', ''WY'', ''DC'']"

text \<open>
  The tables keyed by a closed union type are total functions on that type. The keys of
  \<open>STATE_FACTOR\<close> are arbitrary strings, so that table stays an association list. Each
  entry is the binary64 value of its literal.
\<close>

fun AGE_FACTOR :: "AgeRange \<Rightarrow> real" where
  "AGE_FACTOR Age_16_19 = fl 1.85"
| "AGE_FACTOR Age_20_24 = fl 1.55"
| "AGE_FACTOR Age_25_29 = fl 1.20"
| "AGE_FACTOR Age_30_64 = fl 1.00"
| "AGE_FACTOR Age_65_74 = fl 1.15"
| "AGE_FACTOR Age_75_plus = fl 1.35"

definition STATE_FACTOR :: "(string \<times> real) list" where
  "STATE_FACTOR = [(''MI'', fl 1.45), (''LA'', fl 1.40), (''FL'', fl 1.35), (''NY'', fl 1.30),
     (''CA'', fl 1.25), (''NJ'', fl 1.28), (''TX'', fl 1.20), (''DEFAULT'', fl 1.00)]"

fun VEHICLE_FACTOR :: "VehicleType \<Rightarrow> real" where
  "VEHICLE_FACTOR sedan = fl 1.00"
| "VEHICLE_FACTOR suv = fl 1.10"
| "VEHICLE_FACTOR truck = fl 1.08"
| "VEHICLE_FACTOR sports = fl 1.45"
| "VEHICLE_FACTOR luxury = fl 1.55"
| "VEHICLE_FACTOR electric = fl 1.15"

fun COVERAGE_FACTOR :: "CoverageLevel \<Rightarrow> real" where
  "COVERAGE_FACTOR minimum = fl 0.65"
| "COVERAGE_FACTOR standard = fl 1.00"
| "COVERAGE_FACTOR full = fl 1.45"

fun HISTORY_FACTOR :: "DrivingHistory \<Rightarrow> real" where
  "HISTORY_FACTOR clean = fl 0.85"
| "HISTORY_FACTOR minor = fl 1.00"

text \<open>
  \<open>STATE_FACTOR\<close> is an object literal, so its prototype is \<open>Object.prototype\<close> and
  \<open>STATE_FACTOR[k]\<close> also finds the members that every object inherits from there. These are
  their names (ECMAScript, with the legacy accessors that browsers define).
\<close>

definition Object_prototype :: "string list" where
  "Object_prototype = [''constructor'', ''hasOwnProperty'', ''isPrototypeOf'',
     ''propertyIsEnumerable'', ''toLocaleString'', ''toString'', ''valueOf'', ''__proto__'',
     ''__defineGetter__'', ''__defineSetter__'', ''__lookupGetter__'', ''__lookupSetter__'']"

text \<open>\<open>tab[k]\<close> on an object literal with number-valued entries.\<close>

definition get_prop :: "(string \<times> real) list \<Rightarrow> string \<Rightarrow> jsval" where
  "get_prop tab k =
     (case map_of tab k of
        Some v \<Rightarrow> Num v
      | None \<Rightarrow> if k \<in> set Object_prototype then Object else Undefined)"

subsection \<open>The computation of \<open>App\<close>\<close>

text \<open>The eleven constants of lines 32 to 44, under the names the source gives them.\<close>

record Breakdown =
  ageFactor :: jsval
  stateFactor :: jsval
  vehicleFactor :: jsval
  coverageFactor :: jsval
  historyFactor :: jsval
  riskAdjustment :: jsval
  baselineMultiplier :: jsval
  savingsMultiplier :: jsval
  estimatedNewPremium :: jsval
  monthlySavings :: jsval
  annualSavings :: jsval

text \<open>
  Lines 32 and 34 to 44, with the value of \<open>stateFactor\<close> taken as an argument, so that the
  same computation can be run on a state factor given directly.
\<close>

definition App_from :: "jsval \<Rightarrow> SavingsInput \<Rightarrow> Breakdown" where
  "App_from sf values =
     (let ageFactor = Num (AGE_FACTOR (ageRange values));
          stateFactor = sf;
          vehicleFactor = Num (VEHICLE_FACTOR (vehicleType values));
          coverageFactor = Num (COVERAGE_FACTOR (coverageLevel values));
          historyFactor = Num (HISTORY_FACTOR (drivingHistory values));
          riskAdjustment =
            js_mul (js_mul (js_mul ageFactor stateFactor) vehicleFactor) historyFactor;
          baselineMultiplier = js_mul riskAdjustment coverageFactor;
          savingsMultiplier =
            Math_max (lit 0.70)
              (Math_min (lit 1.0) (js_mul (js_div (lit 1.0) baselineMultiplier) (lit 0.92)));
          estimatedNewPremium = Math_round (js_mul (Num (currentPremium values)) savingsMultiplier);
          monthlySavings =
            Math_max (lit 0) (js_sub (Num (currentPremium values)) estimatedNewPremium);
          annualSavings = js_mul monthlySavings (lit 12)
      in \<lparr> ageFactor = ageFactor, stateFactor = stateFactor, vehicleFactor = vehicleFactor,
           coverageFactor = coverageFactor, historyFactor = historyFactor,
           riskAdjustment = riskAdjustment, baselineMultiplier = baselineMultiplier,
           savingsMultiplier = savingsMultiplier, estimatedNewPremium = estimatedNewPremium,
           monthlySavings = monthlySavings, annualSavings = annualSavings \<rparr>)"

text \<open>Line 33: \<open>STATE_FACTOR[values.state] || STATE_FACTOR.DEFAULT\<close>.\<close>

definition resolve_stateFactor :: "string \<Rightarrow> jsval" where
  "resolve_stateFactor st = js_or (get_prop STATE_FACTOR st) (get_prop STATE_FACTOR ''DEFAULT'')"

definition App :: "SavingsInput \<Rightarrow> Breakdown" where
  "App values = App_from (resolve_stateFactor (state values)) values"


text \<open>
  Line 112: the premium field stores \<open>parseInt(e.target.value) || 0\<close>. \<open>parseInt\<close> returns
  \<open>NaN\<close> for an entry with no leading digits, so such an entry is stored as 0.
\<close>

definition stored_premium :: "jsval \<Rightarrow> jsval" where
  "stored_premium parsed = js_or parsed (lit 0)"

subsection \<open>Inputs used as examples\<close>

text \<open>
  The initial state of the component (line 29), which is also the first scenario of the
  specification; its third scenario; and the factors of its second scenario, for which the
  savings multiplier is clamped to its lower bound, with a premium to be chosen.
\<close>

definition initial_values :: SavingsInput where
  "initial_values = \<lparr> ageRange = Age_30_64, state = ''CA'', vehicleType = sedan,
     coverageLevel = standard, drivingHistory = clean, currentPremium = 180 \<rparr>"

definition scenario3 :: SavingsInput where
  "scenario3 = \<lparr> ageRange = Age_30_64, state = ''WY'', vehicleType = sedan,
     coverageLevel = minimum, drivingHistory = clean, currentPremium = 100 \<rparr>"

definition scenario2_at :: "real \<Rightarrow> SavingsInput" where
  "scenario2_at p = \<lparr> ageRange = Age_16_19, state = ''MI'', vehicleType = sports,
     coverageLevel = full, drivingHistory = minor, currentPremium = p \<rparr>"

subsection \<open>The computation on finite numbers\<close>

text \<open>
  When the state factor is a number between 1/2 and 2, every constant up to the savings
  multiplier is a finite number. These functions name those numbers, with the rounding of
  each operation; the lemmas of the next section connect them to \<open>App\<close>.
\<close>

definition state_num :: "string \<Rightarrow> real" where
  "state_num st = (case map_of STATE_FACTOR st of Some v \<Rightarrow> v | None \<Rightarrow> fl 1.00)"

definition risk :: "real \<Rightarrow> SavingsInput \<Rightarrow> real" where
  "risk f values =
     fl (fl (fl (AGE_FACTOR (ageRange values) * f) * VEHICLE_FACTOR (vehicleType values))
       * HISTORY_FACTOR (drivingHistory values))"

definition baseline :: "real \<Rightarrow> SavingsInput \<Rightarrow> real" where
  "baseline f values = fl (risk f values * COVERAGE_FACTOR (coverageLevel values))"

definition mult :: "real \<Rightarrow> SavingsInput \<Rightarrow> real" where
  "mult f values = max (fl 0.70) (min (fl 1.0) (fl (fl (fl 1.0 / baseline f values) * fl 0.92)))"

definition rounded :: "real \<Rightarrow> SavingsInput \<Rightarrow> int" where
  "rounded f values = \<lfloor>fl (currentPremium values * mult f values) + 1 / 2\<rfloor>"

subsection \<open>Two rounding conventions\<close>

text \<open>
  Both return the integer nearest to \<open>x\<close> and differ only when \<open>x\<close> lies exactly between
  two integers: the first then takes the larger one, the second the one further from zero.
\<close>

definition round_half_up :: "real \<Rightarrow> int" where
  "round_half_up x =
     (let fl = \<lfloor>x\<rfloor>; d = x - of_int fl
      in if d < 1 / 2 then fl else if 1 / 2 < d then fl + 1 else fl + 1)"

definition round_half_away_from_zero :: "real \<Rightarrow> int" where
  "round_half_away_from_zero x =
     (let fl = \<lfloor>x\<rfloor>; d = x - of_int fl
      in if d < 1 / 2 then fl else if 1 / 2 < d then fl + 1 else if 0 \<le> x then fl + 1 else fl)"

section \<open>Properties of the rounding\<close>

subsection \<open>The binary exponent\<close>

lemma pow2_pos: "0 < (2::real) powi k"
  by (simp add: zero_less_power_int)

lemma pow2_succ: "(2::real) powi (k + 1) = 2 powi k * 2"
  by (simp add: power_int_add_1)

lemma pow2_pred: "(2::real) powi (k - 1) = 2 powi k / 2"
  by (simp add: power_int_diff)

lemma pow2_mono: "j \<le> k \<Longrightarrow> (2::real) powi j \<le> 2 powi k"
  by (simp add: power_int_increasing)

lemma ilog2_up_bounds:
  "1 \<le> x \<Longrightarrow> 0 \<le> ilog2_up x \<and> 2 powi ilog2_up x \<le> x \<and> x < 2 powi (ilog2_up x + 1)"
proof (induction x rule: ilog2_up.induct)
  case (1 x)
  show ?case
  proof (cases "2 \<le> x")
    case True
    let ?k = "ilog2_up (x / 2)"
    have ih: "0 \<le> ?k \<and> 2 powi ?k \<le> x / 2 \<and> x / 2 < 2 powi (?k + 1)"
      using 1 True by simp
    have e: "ilog2_up x = ?k + 1"
      using True by (subst ilog2_up.simps) simp
    have p1: "(2::real) powi ilog2_up x = 2 powi ?k * 2"
      by (simp only: e pow2_succ)
    have p2: "(2::real) powi (ilog2_up x + 1) = 2 powi ?k * 2 * 2"
      by (simp only: e pow2_succ)
    have "0 \<le> ilog2_up x" using ih e by simp
    moreover have "2 powi ilog2_up x \<le> x" using ih p1 by simp
    moreover have "x < 2 powi (ilog2_up x + 1)" using ih p2 pow2_succ [of ?k] by simp
    ultimately show ?thesis by simp
  next
    case False
    have e: "ilog2_up x = 0"
      using False by (subst ilog2_up.simps) simp
    show ?thesis using False 1(2) e by simp
  qed
qed

lemma ilog2_down_bounds:
  "0 < x \<and> x < 1 \<longrightarrow>
     ilog2_down x < 0 \<and> 2 powi ilog2_down x \<le> x \<and> x < 2 powi (ilog2_down x + 1)"
proof (induction x rule: ilog2_down.induct)
  case (1 x)
  show ?case
  proof
    assume a: "0 < x \<and> x < 1"
    let ?k = "ilog2_down (2 * x)"
    have e: "ilog2_down x = ?k - 1"
      using a by (subst ilog2_down.simps) simp
    show "ilog2_down x < 0 \<and> 2 powi ilog2_down x \<le> x \<and> x < 2 powi (ilog2_down x + 1)"
    proof (cases "2 * x < 1")
      case True
      have ih: "?k < 0 \<and> 2 powi ?k \<le> 2 * x \<and> 2 * x < 2 powi (?k + 1)"
        using 1 a True by simp
      have "2 powi (?k - 1) \<le> x" using ih by (simp add: pow2_pred)
      moreover have "x < 2 powi ?k" using ih by (simp add: pow2_succ)
      ultimately show ?thesis using ih e by simp
    next
      case False
      have k: "?k = 0"
        using False by (subst ilog2_down.simps) simp
      have "(2::real) powi (- 1) = 1 / 2" by (simp add: power_int_minus)
      then show ?thesis using False a e k by simp
    qed
  qed
qed

lemma expo_bounds:
  assumes "0 < x"
  shows "2 powi expo x \<le> x \<and> x < 2 powi (expo x + 1)"
proof (cases "1 \<le> x")
  case True
  then show ?thesis using ilog2_up_bounds [of x] by (simp add: expo_def)
next
  case False
  then show ?thesis using assms ilog2_down_bounds [of x] by (simp add: expo_def)
qed

lemma expo_less:
  assumes "0 < x" and "x < 2 powi (k + 1)"
  shows "expo x \<le> k"
proof (rule ccontr)
  assume "\<not> expo x \<le> k"
  then have "k + 1 \<le> expo x" by simp
  then have "(2::real) powi (k + 1) \<le> 2 powi expo x" by (rule pow2_mono)
  then show False using expo_bounds [OF assms(1)] assms(2) by linarith
qed

lemma expo_greater:
  assumes "0 < x" and "2 powi k \<le> x"
  shows "k \<le> expo x"
proof (rule ccontr)
  assume "\<not> k \<le> expo x"
  then have "expo x + 1 \<le> k" by simp
  then have "(2::real) powi (expo x + 1) \<le> 2 powi k" by (rule pow2_mono)
  then show False using expo_bounds [OF assms(1)] assms(2) by linarith
qed

lemma expo_mono:
  assumes "0 < x" and "x \<le> y"
  shows "expo x \<le> expo y"
proof -
  have y: "0 < y" using assms by simp
  have "2 powi expo x \<le> y" using expo_bounds [OF assms(1)] assms(2) by linarith
  then show ?thesis using y by (rule expo_greater [rotated])
qed

subsection \<open>Rounding to the nearest integer\<close>

lemma rne_bounds: "of_int (rne x) - 1 / 2 \<le> x \<and> x \<le> of_int (rne x) + 1 / 2"
  unfolding rne_def Let_def by (auto; linarith)

lemma rne_of_int: "rne (of_int n) = n"
  by (simp add: rne_def)

lemma rne_mono:
  assumes "x \<le> y"
  shows "rne x \<le> rne y"
proof (rule ccontr)
  assume "\<not> rne x \<le> rne y"
  then have "rne y + 1 \<le> rne x" by simp
  then have "(of_int (rne y) :: real) + 1 \<le> of_int (rne x)"
    by (metis of_int_1 of_int_add of_int_le_iff)
  then have "y \<le> x" using rne_bounds [of x] rne_bounds [of y] by linarith
  then have "x = y" using assms by simp
  then show False using \<open>\<not> rne x \<le> rne y\<close> by simp
qed

subsection \<open>Rounding to binary64 is monotone, exact on integers and accurate\<close>

lemma ulp_pos: "0 < ulp x"
  by (simp add: ulp_def pow2_pos)

lemma fl_zero: "fl 0 = 0"
  by (simp add: fl_def rne_def)

lemma fl_nonneg:
  assumes "0 \<le> x"
  shows "0 \<le> fl x"
proof -
  have "0 \<le> x / ulp x" using assms ulp_pos [of x] by simp
  then have "rne 0 \<le> rne (x / ulp x)" by (rule rne_mono)
  then have "0 \<le> rne (x / ulp x)" by (simp add: rne_def)
  then show ?thesis using ulp_pos [of x] by (simp add: fl_def)
qed

lemma fl_on_grid:
  assumes "x / ulp x = of_int k"
  shows "fl x = x"
proof -
  have "fl x = of_int k * ulp x" by (simp add: fl_def assms rne_of_int)
  also have "\<dots> = x / ulp x * ulp x" by (simp only: assms)
  also have "\<dots> = x" using ulp_pos [of x] by simp
  finally show ?thesis .
qed

lemma ulp_of_pos: "0 < x \<Longrightarrow> ulp x = 2 powi (max (expo x) (- 1022) - 52)"
  by (simp add: ulp_def)

lemma fl_le_binade_top:
  assumes "0 < x"
  shows "fl x \<le> 2 powi (max (expo x) (- 1022) + 1)"
proof -
  let ?e = "max (expo x) (- 1022)"
  have u: "ulp x = 2 powi (?e - 52)" using assms by (rule ulp_of_pos)
  have top: "(2::real) powi (?e + 1) = 2 ^ 53 * 2 powi (?e - 52)"
  proof -
    have "(2::real) powi (?e + 1) = 2 powi (53 + (?e - 52))"
      by (rule arg_cong [where f = "\<lambda>k. 2 powi k"]) simp
    also have "\<dots> = 2 powi 53 * 2 powi (?e - 52)" by (rule power_int_add) simp
    finally show ?thesis by simp
  qed
  have "x < 2 powi (expo x + 1)" using expo_bounds [OF assms] by simp
  also have "\<dots> \<le> 2 powi (?e + 1)" by (rule pow2_mono) simp
  finally have "x < 2 ^ 53 * 2 powi (?e - 52)" using top by simp
  then have "x / ulp x \<le> of_int (2 ^ 53)"
    using pow2_pos [of "?e - 52"] by (simp add: u pos_divide_le_eq)
  then have "rne (x / ulp x) \<le> rne (of_int (2 ^ 53))" by (rule rne_mono)
  then have "rne (x / ulp x) \<le> 2 ^ 53" by (simp only: rne_of_int)
  then have "(of_int (rne (x / ulp x)) :: real) \<le> 2 ^ 53"
    by (metis of_int_le_iff of_int_numeral of_int_power)
  then have "fl x \<le> 2 ^ 53 * ulp x"
    unfolding fl_def using ulp_pos [of x] by (simp add: mult_right_mono)
  then show ?thesis using top u by simp
qed

lemma fl_ge_binade_bottom:
  assumes "0 < x" and "- 1022 \<le> expo x"
  shows "2 powi expo x \<le> fl x"
proof -
  let ?e = "expo x"
  have u: "ulp x = 2 powi (?e - 52)" using assms by (simp add: ulp_of_pos max_def)
  have bot: "(2::real) powi ?e = 2 ^ 52 * 2 powi (?e - 52)"
  proof -
    have "(2::real) powi ?e = 2 powi (52 + (?e - 52))"
      by (rule arg_cong [where f = "\<lambda>k. 2 powi k"]) simp
    also have "\<dots> = 2 powi 52 * 2 powi (?e - 52)" by (rule power_int_add) simp
    finally show ?thesis by simp
  qed
  have "2 ^ 52 * 2 powi (?e - 52) \<le> x" using expo_bounds [OF assms(1)] bot by simp
  then have "of_int (2 ^ 52) \<le> x / ulp x"
    using pow2_pos [of "?e - 52"] by (simp add: u pos_le_divide_eq)
  then have "rne (of_int (2 ^ 52)) \<le> rne (x / ulp x)" by (rule rne_mono)
  then have "2 ^ 52 \<le> rne (x / ulp x)" by (simp only: rne_of_int)
  then have "(2 ^ 52 :: real) \<le> of_int (rne (x / ulp x))"
    by (metis of_int_le_iff of_int_numeral of_int_power)
  then have "2 ^ 52 * ulp x \<le> fl x"
    unfolding fl_def using ulp_pos [of x] by (simp add: mult_right_mono)
  then show ?thesis using bot u by simp
qed

lemma fl_mono_pos:
  assumes "0 < x" and "x \<le> y"
  shows "fl x \<le> fl y"
proof -
  let ?ex = "max (expo x) (- 1022)"
  let ?ey = "max (expo y) (- 1022)"
  have y: "0 < y" using assms by simp
  have le: "?ex \<le> ?ey" using expo_mono [OF assms] by simp
  show ?thesis
  proof (cases "?ex = ?ey")
    case True
    then have u: "ulp x = ulp y" using assms(1) y by (simp add: ulp_of_pos)
    have "x / ulp y \<le> y / ulp y" using assms(2) ulp_pos [of y] by (simp add: divide_right_mono)
    then have "rne (x / ulp y) \<le> rne (y / ulp y)" by (rule rne_mono)
    then have "(of_int (rne (x / ulp y)) :: real) \<le> of_int (rne (y / ulp y))" by simp
    then show ?thesis unfolding fl_def u using ulp_pos [of y] by (simp add: mult_right_mono)
  next
    case False
    then have lt: "?ex + 1 \<le> ?ey" using le by simp
    then have ey: "?ey = expo y" and ny: "- 1022 \<le> expo y" by (simp_all add: max_def split: if_splits)
    have "fl x \<le> 2 powi (?ex + 1)" using assms(1) by (rule fl_le_binade_top)
    also have "\<dots> \<le> 2 powi ?ey" using lt by (rule pow2_mono)
    also have "\<dots> = 2 powi expo y" by (simp only: ey)
    also have "\<dots> \<le> fl y" using y ny by (rule fl_ge_binade_bottom)
    finally show ?thesis .
  qed
qed

lemma fl_mono:
  assumes "0 \<le> x" and "x \<le> y"
  shows "fl x \<le> fl y"
proof (cases "x = 0")
  case True
  then show ?thesis using assms fl_nonneg [of y] by (simp add: fl_zero)
next
  case False
  then have "0 < x" using assms by simp
  then show ?thesis using assms(2) by (rule fl_mono_pos)
qed

lemma fl_of_int:
  assumes "0 \<le> n" and "n < 2 ^ 53"
  shows "fl (of_int n) = of_int n"
proof (cases "n = 0")
  case True
  then show ?thesis by (simp add: fl_zero)
next
  case False
  let ?x = "of_int n :: real"
  have x1: "1 \<le> ?x" using assms(1) False by simp
  then have x0: "0 < ?x" by simp
  have "(2::real) powi 0 \<le> ?x" using x1 by simp
  with x0 have e0: "0 \<le> expo ?x" by (rule expo_greater)
  have "?x < 2 ^ 53" using assms(2) by (metis of_int_less_iff of_int_numeral of_int_power)
  then have "?x < 2 powi (52 + 1)" by simp
  with x0 have e52: "expo ?x \<le> 52" by (rule expo_less)
  define j where "j = nat (52 - expo ?x)"
  have j: "52 - expo ?x = int j" using e52 by (simp add: j_def)
  have "expo ?x - 52 = - int j" using j by simp
  then have u: "ulp ?x = 2 powi (- int j)" using x0 e0 by (simp add: ulp_of_pos max_def)
  have "ulp ?x = 1 / 2 ^ j" unfolding u by (simp add: power_int_minus_divide)
  then have "?x / ulp ?x = of_int (n * 2 ^ j)" by simp
  then show ?thesis by (rule fl_on_grid)
qed

lemma fl_lower:
  assumes "1 / 2 \<le> x"
  shows "x - x / 2 ^ 53 \<le> fl x"
proof -
  have x0: "0 < x" using assms by simp
  have "(2::real) powi (- 1) \<le> x" using assms by (simp add: power_int_minus_divide)
  with x0 have e: "- 1 \<le> expo x" by (rule expo_greater)
  then have u: "ulp x = 2 powi (expo x - 52)" using x0 by (simp add: ulp_of_pos max_def)
  have "(2::real) powi (expo x - 52) = 2 powi expo x / 2 powi 52"
    by (rule power_int_diff) simp
  then have u2: "ulp x = 2 powi expo x / 2 ^ 52" using u by simp
  have "ulp x \<le> x / 2 ^ 52"
    unfolding u2 using expo_bounds [OF x0] by (simp add: divide_right_mono)
  moreover have "x / ulp x * ulp x = x" using ulp_pos [of x] by simp
  moreover have "x / ulp x - 1 / 2 \<le> of_int (rne (x / ulp x))"
    using rne_bounds [of "x / ulp x"] by linarith
  then have "(x / ulp x - 1 / 2) * ulp x \<le> fl x"
    unfolding fl_def using ulp_pos [of x] by (simp only: mult_right_mono less_imp_le)
  then have "x / ulp x * ulp x - ulp x / 2 \<le> fl x" by (simp add: algebra_simps)
  ultimately show ?thesis by simp
qed

lemma fl_range:
  assumes "0 \<le> a" and "a \<le> x" and "x \<le> b" and "fl a = a" and "fl b = b"
  shows "a \<le> fl x \<and> fl x \<le> b"
  using fl_mono [OF assms(1,2)] fl_mono [of x b] assms by simp

lemma overflow_threshold_pos: "0 < overflow_threshold"
  by (simp add: overflow_threshold_def)

lemma to_double_finite:
  assumes "0 \<le> x" and "x \<le> b" and "is_double b"
  shows "to_double x = Num (fl x) \<and> 0 \<le> fl x \<and> fl x \<le> b"
proof -
  have "fl x \<le> fl b" using assms(1,2) by (rule fl_mono)
  then have le: "fl x \<le> b" using assms(3) by (simp add: is_double_def)
  have b: "b < overflow_threshold" using assms(3) by (simp add: is_double_def abs_less_iff)
  have ge: "0 \<le> fl x" using assms(1) by (rule fl_nonneg)
  have "\<not> overflow_threshold \<le> fl x" using le b by linarith
  moreover have "\<not> fl x \<le> - overflow_threshold" using ge overflow_threshold_pos by linarith
  ultimately show ?thesis using le ge by (simp add: to_double_def Let_def)
qed

lemma is_double_of_int:
  assumes "0 \<le> n" and "n < 2 ^ 53"
  shows "is_double (of_int n)"
proof -
  have "(of_int n :: real) < 2 ^ 53"
    using assms(2) by (metis of_int_less_iff of_int_numeral of_int_power)
  also have "(2::real) ^ 53 < 2 ^ 1024" by (rule power_strict_increasing) simp_all
  finally have "(of_int n :: real) < overflow_threshold" by (simp only: overflow_threshold_def)
  moreover have "(0::real) \<le> of_int n" using assms(1) by simp
  ultimately show ?thesis using fl_of_int [OF assms] by (simp add: is_double_def)
qed

subsection \<open>Evaluation on literals\<close>

lemmas fl_eval = fl_def ulp_def expo_def rne_def Let_def ilog2_up.simps ilog2_down.simps

lemmas js_eval = fl_eval to_double_def lit_def is_double_def overflow_threshold_def

lemma to_double_zero: "to_double 0 = Num 0"
  by (simp add: js_eval)

lemma fl_consts:
  "fl 1 = 1" "fl 2 = 2" "fl 4 = 4" "fl 8 = 8" "fl 16 = 16" "fl 32 = 32"
  "fl (1 / 2) = 1 / 2" "fl (1 / 4) = 1 / 4" "fl (1 / 8) = 1 / 8" "fl (1 / 16) = 1 / 16"
  "fl (1 / 32) = 1 / 32" "fl (1 / 64) = 1 / 64" "fl 12 = 12"
  by (simp_all add: fl_eval)

lemma is_double_32: "is_double 32"
  by (simp add: js_eval)

lemma lit_consts:
  "lit 0 = Num 0" "lit 12 = Num 12" "lit 1.0 = Num 1" "lit 0.70 = Num (fl 0.70)"
  "lit 0.92 = Num (fl 0.92)"
  by (simp_all add: js_eval)

lemma fl_070: "fl 0.70 = 3152519739159347 / 4503599627370496"
  by (simp add: fl_eval)

lemma fl_070_below: "fl 0.70 < 0.70 \<and> 0.70 - fl 0.70 < 1 / 2 ^ 54"
  by (simp add: fl_eval)

lemma fl_092_range: "1 / 2 \<le> fl 0.92 \<and> fl 0.92 \<le> 1"
  by (simp add: fl_eval)

lemma to_double_le_32:
  assumes "0 \<le> x" and "x \<le> 32"
  shows "to_double x = Num (fl x)"
  using to_double_finite [OF assms is_double_32] by simp

section \<open>Properties of the computation\<close>

subsection \<open>The factors\<close>

lemma AGE_FACTOR_range: "1 / 2 \<le> AGE_FACTOR a \<and> AGE_FACTOR a \<le> 2"
  by (cases a) (simp_all add: fl_eval)

lemma VEHICLE_FACTOR_range: "1 / 2 \<le> VEHICLE_FACTOR a \<and> VEHICLE_FACTOR a \<le> 2"
  by (cases a) (simp_all add: fl_eval)

lemma COVERAGE_FACTOR_range: "1 / 2 \<le> COVERAGE_FACTOR a \<and> COVERAGE_FACTOR a \<le> 2"
  by (cases a) (simp_all add: fl_eval)

lemma HISTORY_FACTOR_range: "1 / 2 \<le> HISTORY_FACTOR a \<and> HISTORY_FACTOR a \<le> 2"
  by (cases a) (simp_all add: fl_eval)

lemma COVERAGE_FACTOR_order:
  "COVERAGE_FACTOR minimum \<le> COVERAGE_FACTOR standard"
  "COVERAGE_FACTOR standard \<le> COVERAGE_FACTOR full"
  by (simp_all add: fl_eval)

subsection \<open>Resolving the state factor\<close>

text \<open>
  A state string that names no inherited member resolves to a number between 1 and 1.45:
  its own entry in the table, or the entry \<open>DEFAULT\<close>. A state string that names an
  inherited member resolves to that member. The strings that the form offers (\<open>STATES\<close>,
  from which line 77 builds the options of the state \<open>select\<close>, the only place that sets
  the state) name no inherited member.
\<close>

lemma state_num_range: "1 / 2 \<le> state_num st \<and> state_num st \<le> 2"
  by (simp add: state_num_def STATE_FACTOR_def fl_eval)

lemma resolve_stateFactor_Num:
  "st \<notin> set Object_prototype \<Longrightarrow> resolve_stateFactor st = Num (state_num st)"
  by (simp add: resolve_stateFactor_def get_prop_def js_or_def state_num_def STATE_FACTOR_def fl_eval)

lemma resolve_stateFactor_inherited:
  "list_all (\<lambda>st. resolve_stateFactor st = Object) Object_prototype"
  by (simp add: resolve_stateFactor_def get_prop_def js_or_def STATE_FACTOR_def Object_prototype_def)

lemma STATES_not_inherited: "set STATES \<inter> set Object_prototype = {}"
  by (simp add: STATES_def Object_prototype_def)

lemma stored_premium_non_numeric: "stored_premium NaN = Num 0"
  by (simp add: stored_premium_def js_or_def lit_consts)

subsection \<open>The constants as finite numbers\<close>

lemma fl_prod_range:
  fixes x y lo1 lo2 hi1 hi2 :: real
  assumes "lo1 \<le> x" and "x \<le> hi1" and "lo2 \<le> y" and "y \<le> hi2"
    and "0 < lo1" and "0 < lo2"
    and "fl (lo1 * lo2) = lo1 * lo2" and "fl (hi1 * hi2) = hi1 * hi2"
  shows "lo1 * lo2 \<le> fl (x * y) \<and> fl (x * y) \<le> hi1 * hi2"
proof -
  have "lo1 * lo2 \<le> x * y" using assms(1,3,5,6) by (intro mult_mono) simp_all
  moreover have "x * y \<le> hi1 * hi2" using assms(1-6) by (intro mult_mono) simp_all
  moreover have "0 \<le> lo1 * lo2" using assms(5,6) by simp
  ultimately show ?thesis using assms(7,8) by (intro fl_range) simp_all
qed

lemma prod_in_32:
  fixes x y la lb ha hb :: real
  assumes "la \<le> x \<and> x \<le> ha" and "lb \<le> y \<and> y \<le> hb"
    and "0 < la" and "0 < lb" and "ha * hb \<le> 32"
  shows "0 \<le> x * y \<and> x * y \<le> 32"
proof -
  have x: "0 \<le> x" "x \<le> ha" and y: "0 \<le> y" "y \<le> hb" using assms(1-4) by linarith+
  have "0 \<le> ha" using x by simp
  with x y have "x * y \<le> ha * hb" by (intro mult_mono) simp_all
  moreover have "0 \<le> x * y" using x y by simp
  ultimately show ?thesis using assms(5) by simp
qed

lemma risk_range:
  assumes "1 / 2 \<le> f" and "f \<le> 2"
  shows "1 / 4 \<le> fl (AGE_FACTOR (ageRange v) * f) \<and> fl (AGE_FACTOR (ageRange v) * f) \<le> 4"
    and "1 / 8 \<le> fl (fl (AGE_FACTOR (ageRange v) * f) * VEHICLE_FACTOR (vehicleType v))
         \<and> fl (fl (AGE_FACTOR (ageRange v) * f) * VEHICLE_FACTOR (vehicleType v)) \<le> 8"
    and "1 / 16 \<le> risk f v \<and> risk f v \<le> 16"
    and "1 / 32 \<le> baseline f v \<and> baseline f v \<le> 32"
proof -
  let ?a = "AGE_FACTOR (ageRange v)"
  let ?r1 = "fl (?a * f)"
  let ?r2 = "fl (?r1 * VEHICLE_FACTOR (vehicleType v))"
  have r1: "1 / 2 * (1 / 2) \<le> ?r1 \<and> ?r1 \<le> 2 * 2"
    using AGE_FACTOR_range [of "ageRange v"] assms
    by (intro fl_prod_range) (simp_all add: fl_consts)
  then show g1: "1 / 4 \<le> ?r1 \<and> ?r1 \<le> 4" by simp
  have r2: "1 / 4 * (1 / 2) \<le> ?r2 \<and> ?r2 \<le> 4 * 2"
    using g1 VEHICLE_FACTOR_range [of "vehicleType v"]
    by (intro fl_prod_range) (simp_all add: fl_consts)
  then show g2: "1 / 8 \<le> ?r2 \<and> ?r2 \<le> 8" by simp
  have r3: "1 / 8 * (1 / 2) \<le> risk f v \<and> risk f v \<le> 8 * 2"
    unfolding risk_def using g2 HISTORY_FACTOR_range [of "drivingHistory v"]
    by (intro fl_prod_range) (simp_all add: fl_consts)
  then show g3: "1 / 16 \<le> risk f v \<and> risk f v \<le> 16" by simp
  have r4: "1 / 16 * (1 / 2) \<le> baseline f v \<and> baseline f v \<le> 16 * 2"
    unfolding baseline_def using g3 COVERAGE_FACTOR_range [of "coverageLevel v"]
    by (intro fl_prod_range) (simp_all add: fl_consts)
  then show "1 / 32 \<le> baseline f v \<and> baseline f v \<le> 32" by simp
qed

lemma quotient_range:
  assumes "1 / 32 \<le> b \<and> b \<le> 32"
  shows "1 / 32 \<le> fl (fl 1.0 / b) \<and> fl (fl 1.0 / b) \<le> 32"
    and "1 / 64 \<le> fl (fl (fl 1.0 / b) * fl 0.92) \<and> fl (fl (fl 1.0 / b) * fl 0.92) \<le> 32"
proof -
  have b0: "0 < b" using assms by simp
  have one: "fl 1.0 = 1" by (simp add: fl_consts)
  have "1 / 32 \<le> 1 / b" using assms b0 by (simp add: field_simps)
  moreover have "1 / b \<le> 32" using assms b0 by (simp add: field_simps)
  ultimately have q: "1 / 32 \<le> fl (1 / b) \<and> fl (1 / b) \<le> 32"
    by (intro fl_range) (simp_all add: fl_consts)
  then show g1: "1 / 32 \<le> fl (fl 1.0 / b) \<and> fl (fl 1.0 / b) \<le> 32" by (simp only: one)
  have "1 / 32 * (1 / 2) \<le> fl (fl (fl 1.0 / b) * fl 0.92)
        \<and> fl (fl (fl 1.0 / b) * fl 0.92) \<le> 32 * 1"
    using g1 fl_092_range by (intro fl_prod_range) (simp_all add: fl_consts)
  then show "1 / 64 \<le> fl (fl (fl 1.0 / b) * fl 0.92) \<and> fl (fl (fl 1.0 / b) * fl 0.92) \<le> 32"
    by simp
qed

lemma mult_bounds: "fl 0.70 \<le> mult f v \<and> mult f v \<le> fl 1.0"
proof -
  have "fl 0.70 \<le> fl 1.0" by (simp add: fl_eval)
  then show ?thesis by (simp add: mult_def)
qed

lemma mult_bounds_real: "0 < mult f v \<and> mult f v \<le> 1"
proof -
  have "(0::real) < 3152519739159347 / 4503599627370496" by simp
  moreover have "fl 1.0 = 1" by (simp add: fl_consts)
  ultimately show ?thesis using mult_bounds [of f v] unfolding fl_070 by linarith
qed

text \<open>
  The constants for a state factor between 1/2 and 2: everything up to the savings
  multiplier is a finite number.
\<close>

lemma App_from_Num:
  assumes "1 / 2 \<le> f" and "f \<le> 2"
  shows "App_from (Num f) v =
    \<lparr> ageFactor = Num (AGE_FACTOR (ageRange v)), stateFactor = Num f,
      vehicleFactor = Num (VEHICLE_FACTOR (vehicleType v)),
      coverageFactor = Num (COVERAGE_FACTOR (coverageLevel v)),
      historyFactor = Num (HISTORY_FACTOR (drivingHistory v)),
      riskAdjustment = Num (risk f v), baselineMultiplier = Num (baseline f v),
      savingsMultiplier = Num (mult f v),
      estimatedNewPremium = Math_round (js_mul (Num (currentPremium v)) (Num (mult f v))),
      monthlySavings =
        Math_max (lit 0)
          (js_sub (Num (currentPremium v))
             (Math_round (js_mul (Num (currentPremium v)) (Num (mult f v))))),
      annualSavings =
        js_mul
          (Math_max (lit 0)
             (js_sub (Num (currentPremium v))
                (Math_round (js_mul (Num (currentPremium v)) (Num (mult f v))))))
          (lit 12) \<rparr>"
proof -
  let ?a = "AGE_FACTOR (ageRange v)"
  let ?r1 = "fl (?a * f)"
  let ?r2 = "fl (?r1 * VEHICLE_FACTOR (vehicleType v))"
  let ?b = "baseline f v"
  let ?q = "fl (fl 1.0 / ?b)"
  note rr = risk_range [OF assms, of v]
  note qq = quotient_range [OF rr(4)]
  have a: "1 / 2 \<le> ?a \<and> ?a \<le> 2" by (rule AGE_FACTOR_range)
  have ve: "1 / 2 \<le> VEHICLE_FACTOR (vehicleType v) \<and> VEHICLE_FACTOR (vehicleType v) \<le> 2"
    by (rule VEHICLE_FACTOR_range)
  have hi: "1 / 2 \<le> HISTORY_FACTOR (drivingHistory v) \<and> HISTORY_FACTOR (drivingHistory v) \<le> 2"
    by (rule HISTORY_FACTOR_range)
  have co: "1 / 2 \<le> COVERAGE_FACTOR (coverageLevel v) \<and> COVERAGE_FACTOR (coverageLevel v) \<le> 2"
    by (rule COVERAGE_FACTOR_range)
  have f: "1 / 2 \<le> f \<and> f \<le> 2" using assms by simp
  have "0 \<le> ?a * f \<and> ?a * f \<le> 32" by (rule prod_in_32 [OF a f]) simp_all
  then have m1: "js_mul (Num ?a) (Num f) = Num ?r1" by (simp add: to_double_le_32)
  have "0 \<le> ?r1 * VEHICLE_FACTOR (vehicleType v) \<and> ?r1 * VEHICLE_FACTOR (vehicleType v) \<le> 32"
    by (rule prod_in_32 [OF rr(1) ve]) simp_all
  then have m2: "js_mul (Num ?r1) (Num (VEHICLE_FACTOR (vehicleType v))) = Num ?r2"
    by (simp add: to_double_le_32)
  have "0 \<le> ?r2 * HISTORY_FACTOR (drivingHistory v) \<and> ?r2 * HISTORY_FACTOR (drivingHistory v) \<le> 32"
    by (rule prod_in_32 [OF rr(2) hi]) simp_all
  then have m3: "js_mul (Num ?r2) (Num (HISTORY_FACTOR (drivingHistory v))) = Num (risk f v)"
    by (simp add: to_double_le_32 risk_def)
  have "0 \<le> risk f v * COVERAGE_FACTOR (coverageLevel v)
        \<and> risk f v * COVERAGE_FACTOR (coverageLevel v) \<le> 32"
    by (rule prod_in_32 [OF rr(3) co]) simp_all
  then have m4: "js_mul (Num (risk f v)) (Num (COVERAGE_FACTOR (coverageLevel v))) = Num ?b"
    by (simp add: to_double_le_32 baseline_def)
  have one: "fl 1.0 = 1" by (simp add: fl_consts)
  have b0: "?b \<noteq> 0" using rr(4) by auto
  have "0 \<le> fl 1.0 / ?b \<and> fl 1.0 / ?b \<le> 32" unfolding one using rr(4) by (simp add: field_simps)
  then have "to_double (fl 1.0 / ?b) = Num ?q" by (simp only: to_double_le_32)
  then have d: "js_div (Num (fl 1.0)) (Num ?b) = Num ?q" using b0 by simp
  have "0 \<le> ?q * fl 0.92 \<and> ?q * fl 0.92 \<le> 32"
    by (rule prod_in_32 [OF qq(1) fl_092_range]) simp_all
  then have m5: "js_mul (Num ?q) (Num (fl 0.92)) = Num (fl (?q * fl 0.92))"
    by (simp add: to_double_le_32)
  have l1: "lit 1.0 = Num (fl 1.0)" and l7: "lit 0.70 = Num (fl 0.70)"
    and l9: "lit 0.92 = Num (fl 0.92)"
    by (simp_all add: js_eval)
  show ?thesis
    by (simp only: App_from_def Let_def m1 m2 m3 m4 m5 d l1 l7 l9
        Math_max.simps Math_min.simps mult_def)
qed

lemma App_Num:
  assumes "state v \<notin> set Object_prototype"
  shows "App v = App_from (Num (state_num (state v))) v"
  using assms by (simp add: App_def resolve_stateFactor_Num)

lemma App_fields:
  assumes "state v \<notin> set Object_prototype"
  shows "savingsMultiplier (App v) = Num (mult (state_num (state v)) v)"
    and "estimatedNewPremium (App v)
          = Math_round (js_mul (Num (currentPremium v)) (Num (mult (state_num (state v)) v)))"
    and "monthlySavings (App v)
          = Math_max (lit 0) (js_sub (Num (currentPremium v)) (estimatedNewPremium (App v)))"
    and "annualSavings (App v) = js_mul (monthlySavings (App v)) (lit 12)"
proof -
  have r: "1 / 2 \<le> state_num (state v)" "state_num (state v) \<le> 2"
    using state_num_range [of "state v"] by simp_all
  note e = App_Num [OF assms] App_from_Num [OF r, of v]
  show "savingsMultiplier (App v) = Num (mult (state_num (state v)) v)"
    by (simp only: e Breakdown.simps)
  show "estimatedNewPremium (App v)
          = Math_round (js_mul (Num (currentPremium v)) (Num (mult (state_num (state v)) v)))"
    by (simp only: e Breakdown.simps)
  show "monthlySavings (App v)
          = Math_max (lit 0) (js_sub (Num (currentPremium v)) (estimatedNewPremium (App v)))"
    by (simp only: e Breakdown.simps)
  show "annualSavings (App v) = js_mul (monthlySavings (App v)) (lit 12)"
    by (simp only: e Breakdown.simps)
qed

lemma product_Num:
  assumes "0 \<le> p" and "is_double p"
  shows "js_mul (Num p) (Num (mult f v)) = Num (fl (p * mult f v))
         \<and> 0 \<le> fl (p * mult f v) \<and> fl (p * mult f v) \<le> p"
proof -
  have m: "0 < mult f v" "mult f v \<le> 1" using mult_bounds_real [of f v] by simp_all
  have "0 \<le> p * mult f v" using assms(1) m by simp
  moreover have "p * mult f v \<le> p" using assms(1) m by (simp add: mult_left_le)
  ultimately show ?thesis using to_double_finite [OF _ _ assms(2)] by simp
qed

lemma round_le_int:
  fixes x :: real
  assumes "x \<le> of_int n"
  shows "\<lfloor>x + 1 / 2\<rfloor> \<le> n"
proof -
  have "x + 1 / 2 < of_int n + 1" using assms by simp
  then show ?thesis by (simp add: floor_le_iff)
qed

lemma estimate_Num:
  assumes "state v \<notin> set Object_prototype"
    and "0 \<le> currentPremium v" and "is_double (currentPremium v)"
  shows "estimatedNewPremium (App v) = Num (of_int (rounded (state_num (state v)) v))"
    and "0 \<le> rounded (state_num (state v)) v"
  using product_Num [OF assms(2,3)] App_fields(2) [OF assms(1)]
  by (simp_all add: rounded_def)

text \<open>
With an integer premium the subtraction of line 43 stays in range.
\<close>

lemma monthly_Num:
  assumes "state v \<notin> set Object_prototype"
    and "currentPremium v = of_int n" and "0 \<le> n" and "is_double (currentPremium v)"
  shows "rounded (state_num (state v)) v \<le> n"
    and "monthlySavings (App v)
          = Num (fl (of_int (n - rounded (state_num (state v)) v)))"
    and "0 \<le> fl (of_int (n - rounded (state_num (state v)) v))"
proof -
  let ?f = "state_num (state v)"
  let ?e = "rounded ?f v"
  have p0: "0 \<le> currentPremium v" using assms(2,3) by simp
  note pr = product_Num [OF p0 assms(4), of ?f v]
  have "fl (currentPremium v * mult ?f v) \<le> of_int n" using pr assms(2) by simp
  then show le: "?e \<le> n" unfolding rounded_def by (rule round_le_int)
  have d: "currentPremium v - of_int ?e = of_int (n - ?e)" using assms(2) by simp
  have "(0::real) \<le> of_int (n - ?e)" using le by simp
  moreover have "(of_int (n - ?e) :: real) \<le> currentPremium v"
    using estimate_Num(2) [OF assms(1) p0 assms(4)] assms(2) by simp
  ultimately have t: "to_double (of_int (n - ?e)) = Num (fl (of_int (n - ?e)))
      \<and> 0 \<le> fl (of_int (n - ?e))"
    using to_double_finite [OF _ _ assms(4)] by simp
  then show "0 \<le> fl (of_int (n - ?e))" by simp
  have "monthlySavings (App v) = Math_max (Num 0) (to_double (currentPremium v - of_int ?e))"
    using App_fields(3) [OF assms(1)] estimate_Num(1) [OF assms(1) p0 assms(4)]
    by (simp add: lit_consts)
  then show "monthlySavings (App v) = Num (fl (of_int (n - ?e)))"
    using t by (simp only: d Math_max.simps) simp
qed

subsection \<open>The coverage level\<close>

lemma risk_coverageLevel_update: "risk f (v\<lparr>coverageLevel := c\<rparr>) = risk f v"
  by (simp add: risk_def)

lemma mult_antimono:
  assumes "1 / 2 \<le> f" and "f \<le> 2"
    and "COVERAGE_FACTOR c1 \<le> COVERAGE_FACTOR c2"
  shows "mult f (v\<lparr>coverageLevel := c2\<rparr>) \<le> mult f (v\<lparr>coverageLevel := c1\<rparr>)"
proof -
  let ?b1 = "baseline f (v\<lparr>coverageLevel := c1\<rparr>)"
  let ?b2 = "baseline f (v\<lparr>coverageLevel := c2\<rparr>)"
  have r: "0 \<le> risk f v" using risk_range(3) [OF assms(1,2), of v] by simp
  have c1: "0 \<le> COVERAGE_FACTOR c1" using COVERAGE_FACTOR_range [of c1] by simp
  have "risk f v * COVERAGE_FACTOR c1 \<le> risk f v * COVERAGE_FACTOR c2"
    using assms(3) r by (rule mult_left_mono)
  moreover have "0 \<le> risk f v * COVERAGE_FACTOR c1" using r c1 by simp
  ultimately have b: "?b1 \<le> ?b2"
    by (simp add: baseline_def risk_coverageLevel_update fl_mono)
  have b1: "0 < ?b1"
    using risk_range(4) [OF assms(1,2), of "v\<lparr>coverageLevel := c1\<rparr>"] by simp
  then have b2: "0 < ?b2" using b by simp
  have one: "fl 1.0 = 1" by (simp add: fl_consts)
  have "1 / ?b2 \<le> 1 / ?b1" using b b1 b2 by (simp add: frac_le)
  moreover have "0 \<le> 1 / ?b2" using b2 by simp
  ultimately have q: "fl (fl 1.0 / ?b2) \<le> fl (fl 1.0 / ?b1)"
    unfolding one by (intro fl_mono)
  have q0: "0 \<le> fl (fl 1.0 / ?b2)" unfolding one using b2 by (intro fl_nonneg) simp
  have n: "0 \<le> fl 0.92" using fl_092_range by simp
  have "fl (fl 1.0 / ?b2) * fl 0.92 \<le> fl (fl 1.0 / ?b1) * fl 0.92"
    using q n by (rule mult_right_mono)
  moreover have "0 \<le> fl (fl 1.0 / ?b2) * fl 0.92" using q0 n by simp
  ultimately have "fl (fl (fl 1.0 / ?b2) * fl 0.92) \<le> fl (fl (fl 1.0 / ?b1) * fl 0.92)"
    by (intro fl_mono)
  then show ?thesis unfolding mult_def by (intro max.mono min.mono order_refl)
qed

lemma rounded_antimono:
  assumes "1 / 2 \<le> f" and "f \<le> 2" and "0 \<le> currentPremium v"
    and "COVERAGE_FACTOR c1 \<le> COVERAGE_FACTOR c2"
  shows "rounded f (v\<lparr>coverageLevel := c2\<rparr>) \<le> rounded f (v\<lparr>coverageLevel := c1\<rparr>)"
proof -
  let ?m1 = "mult f (v\<lparr>coverageLevel := c1\<rparr>)"
  let ?m2 = "mult f (v\<lparr>coverageLevel := c2\<rparr>)"
  have "?m2 \<le> ?m1" using assms(1,2,4) by (rule mult_antimono)
  then have "currentPremium v * ?m2 \<le> currentPremium v * ?m1"
    using assms(3) by (rule mult_left_mono)
  moreover have "0 \<le> currentPremium v * ?m2"
    using assms(3) mult_bounds_real [of f "v\<lparr>coverageLevel := c2\<rparr>"] by simp
  ultimately have "fl (currentPremium v * ?m2) \<le> fl (currentPremium v * ?m1)"
    by (intro fl_mono)
  then show ?thesis unfolding rounded_def by (intro floor_mono) simp
qed

subsection \<open>\<open>Math.round\<close>\<close>

lemma Math_round_half_up: "Math_round (Num x) = Num (of_int (round_half_up x))"
proof -
  have "\<lfloor>x + 1 / 2\<rfloor> = round_half_up x"
    unfolding round_half_up_def Let_def by (simp add: floor_eq_iff) linarith
  then show ?thesis by simp
qed

lemma half_up_is_half_away: "0 \<le> x \<Longrightarrow> round_half_up x = round_half_away_from_zero x"
  by (simp add: round_half_up_def round_half_away_from_zero_def Let_def)

subsection \<open>Evaluations\<close>

text \<open>
  The rounding of the products decides the estimate. With a savings multiplier clamped to
  the binary64 value of 0.70, which is below 7/10: a premium of 55 gives the product 38.5
  exactly, rounded up to 39; a premium of 85 gives a product just below 59.5, rounded to 59;
  a premium of -55 gives -38.5, rounded towards plus infinity to -38; and the premium
  7000000000000001 gives an estimate more than one half below 70 percent of it.
\<close>

lemmas App_eval = App_def App_from_def resolve_stateFactor_def get_prop_def js_or_def
  STATE_FACTOR_def Object_prototype_def js_eval

lemma tie_at_55:
  "js_mul (Num 55) (savingsMultiplier (App (scenario2_at 55))) = Num (77 / 2)
   \<and> estimatedNewPremium (App (scenario2_at 55)) = Num 39"
  by (simp add: scenario2_at_def App_eval)

lemma estimate_at_85:
  "estimatedNewPremium (App (scenario2_at 85)) = Num 59
   \<and> monthlySavings (App (scenario2_at 85)) = Num 26
   \<and> annualSavings (App (scenario2_at 85)) = Num 312"
  by (simp add: scenario2_at_def App_eval)

lemma negative_tie_rounds_up:
  "js_mul (Num (- 55)) (savingsMultiplier (App (scenario2_at (- 55)))) = Num (- 77 / 2)
   \<and> estimatedNewPremium (App (scenario2_at (- 55))) = Num (- 38)
   \<and> round_half_away_from_zero (- 77 / 2) = - 39"
  by (simp add: scenario2_at_def App_eval round_half_away_from_zero_def)

lemma lower_bound_fails_for_large_premium:
  "estimatedNewPremium (App (scenario2_at 7000000000000001)) = Num 4900000000000000
   \<and> \<not> (0.70 * currentPremium (scenario2_at 7000000000000001) - 1 / 2 \<le> 4900000000000000)"
  by (simp add: scenario2_at_def App_eval)

section \<open>The claims\<close>

text \<open>
  In the statements below, a state string is valid when it names no member inherited from
  \<open>Object.prototype\<close>; this holds for the 51 codes the form offers (lemma
  \<open>STATES_not_inherited\<close>) and for every other code that is not in the table. A current
  premium is a number of the program when it is a finite binary64 value (\<open>is_double\<close>);
  every integer below \<open>2 ^ 53\<close> is one (lemma \<open>is_double_of_int\<close>). The bounds 0.70 and
  1.00 of the clamp are the binary64 values of these literals: \<open>fl 1.00\<close> is 1 and
  \<open>fl 0.70\<close> is below 7/10 by less than \<open>1 / 2 ^ 54\<close> (lemma \<open>fl_070_below\<close>).
\<close>

subsection \<open>C1: range of the savings multiplier\<close>

text \<open>
  C1: for every valid input the savings multiplier is a number in the closed interval from
  0.70 to 1.00, whatever the current premium is.
\<close>

theorem savingsMultiplier_in_range:
  assumes "state v \<notin> set Object_prototype"
  shows "\<exists>m. savingsMultiplier (App v) = Num m \<and> fl 0.70 \<le> m \<and> m \<le> fl 1.00"
proof -
  have "fl 1.00 = fl 1.0" by simp
  then show ?thesis
    using App_fields(1) [OF assms] mult_bounds [of "state_num (state v)" v] by simp
qed

theorem savingsMultiplier_in_range_witness:
  "state initial_values \<notin> set Object_prototype
   \<and> (\<exists>m. savingsMultiplier (App initial_values) = Num m \<and> fl 0.70 \<le> m \<and> m \<le> fl 1.00)"
proof -
  have h: "state initial_values \<notin> set Object_prototype"
    by (simp add: initial_values_def Object_prototype_def)
  show ?thesis using h savingsMultiplier_in_range [OF h] by blast
qed

subsection \<open>C2: savings are not negative\<close>

text \<open>
  C2: for every valid input with an integer, non-negative current premium, the monthly
  savings are at least 0 and the estimated new premium is at most the current premium.
\<close>

theorem savings_nonneg_and_premium_not_above:
  assumes "state v \<notin> set Object_prototype"
    and "currentPremium v = of_int n" and "0 \<le> n" and "is_double (currentPremium v)"
  shows "\<exists>e s. estimatedNewPremium (App v) = Num e \<and> monthlySavings (App v) = Num s
           \<and> 0 \<le> s \<and> e \<le> currentPremium v"
proof -
  have p0: "0 \<le> currentPremium v" using assms(2,3) by simp
  note m = monthly_Num [OF assms]
  have "(of_int (rounded (state_num (state v)) v) :: real) \<le> currentPremium v"
    using m(1) assms(2) by simp
  then show ?thesis
    using estimate_Num(1) [OF assms(1) p0 assms(4)] m(2,3) by simp
qed

theorem savings_nonneg_and_premium_not_above_witness:
  "state initial_values \<notin> set Object_prototype
   \<and> currentPremium initial_values = of_int 180 \<and> (0::int) \<le> 180
   \<and> is_double (currentPremium initial_values)
   \<and> (\<exists>e s. estimatedNewPremium (App initial_values) = Num e
          \<and> monthlySavings (App initial_values) = Num s
          \<and> 0 \<le> s \<and> e \<le> currentPremium initial_values)"
proof -
  have h1: "state initial_values \<notin> set Object_prototype"
    by (simp add: initial_values_def Object_prototype_def)
  have h2: "currentPremium initial_values = of_int 180" by (simp add: initial_values_def)
  have h3: "(0::int) \<le> 180" by simp
  have h4: "is_double (currentPremium initial_values)" by (simp add: initial_values_def js_eval)
  show ?thesis using h1 h2 h3 h4 savings_nonneg_and_premium_not_above [OF h1 h2 h3 h4] by blast
qed

subsection \<open>C3: the coverage level and the estimate\<close>

text \<open>
  C3, as stated, says that moving from minimum to standard coverage, or from standard to
  full, never decreases the estimated new premium. On the initial input the estimate is 180
  with minimum coverage, 156 with standard coverage and 126 with full coverage: it decreases
  at both steps.
\<close>

theorem coverage_monotonicity_counterexample:
  "estimatedNewPremium (App (initial_values\<lparr>coverageLevel := minimum\<rparr>)) = Num 180
   \<and> estimatedNewPremium (App (initial_values\<lparr>coverageLevel := standard\<rparr>)) = Num 156
   \<and> estimatedNewPremium (App (initial_values\<lparr>coverageLevel := full\<rparr>)) = Num 126"
  by (simp add: initial_values_def App_eval)

text \<open>
  C3, amended: holding the other fields fixed, with a non-negative current premium and a
  valid state, moving the coverage level from minimum to standard, or from standard to
  full, never increases the estimated new premium.
\<close>

theorem more_coverage_never_raises_estimate:
  assumes "state v \<notin> set Object_prototype"
    and "0 \<le> currentPremium v" and "is_double (currentPremium v)"
  shows "\<exists>a b c. estimatedNewPremium (App (v\<lparr>coverageLevel := minimum\<rparr>)) = Num a
           \<and> estimatedNewPremium (App (v\<lparr>coverageLevel := standard\<rparr>)) = Num b
           \<and> estimatedNewPremium (App (v\<lparr>coverageLevel := full\<rparr>)) = Num c
           \<and> c \<le> b \<and> b \<le> a"
proof -
  let ?f = "state_num (state v)"
  have f: "1 / 2 \<le> ?f" "?f \<le> 2" using state_num_range [of "state v"] by simp_all
  have e: "estimatedNewPremium (App (v\<lparr>coverageLevel := c\<rparr>))
      = Num (of_int (rounded ?f (v\<lparr>coverageLevel := c\<rparr>)))" for c
    using estimate_Num(1) [of "v\<lparr>coverageLevel := c\<rparr>"] assms by simp
  have "rounded ?f (v\<lparr>coverageLevel := standard\<rparr>) \<le> rounded ?f (v\<lparr>coverageLevel := minimum\<rparr>)"
    using f assms(2) COVERAGE_FACTOR_order(1) by (rule rounded_antimono)
  moreover have "rounded ?f (v\<lparr>coverageLevel := full\<rparr>) \<le> rounded ?f (v\<lparr>coverageLevel := standard\<rparr>)"
    using f assms(2) COVERAGE_FACTOR_order(2) by (rule rounded_antimono)
  ultimately show ?thesis by (simp add: e)
qed

theorem more_coverage_never_raises_estimate_witness:
  "state initial_values \<notin> set Object_prototype \<and> 0 \<le> currentPremium initial_values
   \<and> is_double (currentPremium initial_values)
   \<and> (\<exists>a b c. estimatedNewPremium (App (initial_values\<lparr>coverageLevel := minimum\<rparr>)) = Num a
          \<and> estimatedNewPremium (App (initial_values\<lparr>coverageLevel := standard\<rparr>)) = Num b
          \<and> estimatedNewPremium (App (initial_values\<lparr>coverageLevel := full\<rparr>)) = Num c
          \<and> c \<le> b \<and> b \<le> a)"
proof -
  have h1: "state initial_values \<notin> set Object_prototype"
    by (simp add: initial_values_def Object_prototype_def)
  have h2: "0 \<le> currentPremium initial_values" by (simp add: initial_values_def)
  have h3: "is_double (currentPremium initial_values)" by (simp add: initial_values_def js_eval)
  show ?thesis using h1 h2 h3 more_coverage_never_raises_estimate [OF h1 h2 h3] by blast
qed

subsection \<open>C4: the third scenario\<close>

text \<open>
  C4, as stated, gives a risk adjustment of 1.00 and a baseline multiplier of 0.65 for the
  third scenario. The history factor of a clean record is 0.85 and line 38 multiplies by it,
  so the code computes neither value.
\<close>

theorem scenario3_counterexample:
  "riskAdjustment (App scenario3) \<noteq> lit 1.00 \<and> baselineMultiplier (App scenario3) \<noteq> lit 0.65"
  by (simp add: scenario3_def App_eval)

text \<open>
  C4, amended: on the third scenario the state \<open>WY\<close> is not in the table and resolves to
  the default factor 1.00; the risk adjustment is 0.85, the baseline multiplier 0.5525
  (both as binary64 values), the savings multiplier is capped at 1.00, the estimated new
  premium is 100, and the monthly and annual savings are 0.
\<close>

theorem scenario3_values:
  "get_prop STATE_FACTOR (state scenario3) = Undefined \<and>
   App scenario3 =
     \<lparr> ageFactor = Num 1.00, stateFactor = Num 1.00, vehicleFactor = Num 1.00,
       coverageFactor = Num (fl 0.65), historyFactor = Num (fl 0.85),
       riskAdjustment = Num (fl 0.85), baselineMultiplier = Num (fl 0.5525),
       savingsMultiplier = Num 1.00, estimatedNewPremium = Num 100, monthlySavings = Num 0,
       annualSavings = Num 0 \<rparr>"
  by (simp add: scenario3_def App_eval)

subsection \<open>C5: states that are not in the table\<close>

text \<open>
  C5: for every input whose state is valid and absent from the table, all constants of the
  computation are those obtained with a state factor of 1.00, and those obtained for the
  state string \<open>DEFAULT\<close>, the entry that holds the factor 1.00.
\<close>

theorem unlisted_state_is_factor_one:
  assumes "map_of STATE_FACTOR (state v) = None" and "state v \<notin> set Object_prototype"
  shows "App v = App_from (lit 1.00) v \<and> App v = App (v\<lparr>state := ''DEFAULT''\<rparr>)"
proof -
  have one: "lit 1 = Num 1" by (simp add: js_eval)
  have "resolve_stateFactor (state v) = Num 1"
    using assms by (simp add: resolve_stateFactor_Num state_num_def fl_consts)
  moreover have "resolve_stateFactor ''DEFAULT'' = Num 1"
    by (simp add: resolve_stateFactor_def get_prop_def js_or_def STATE_FACTOR_def fl_consts)
  moreover have "App_from sf (v\<lparr>state := ''DEFAULT''\<rparr>) = App_from sf v" for sf
    by (simp add: App_from_def)
  ultimately show ?thesis by (simp add: App_def one)
qed

theorem unlisted_state_is_factor_one_witness:
  "map_of STATE_FACTOR (state scenario3) = None \<and> state scenario3 \<notin> set Object_prototype
   \<and> App scenario3 = App_from (lit 1.00) scenario3
   \<and> App scenario3 = App (scenario3\<lparr>state := ''DEFAULT''\<rparr>)"
proof -
  have h1: "map_of STATE_FACTOR (state scenario3) = None"
    by (simp add: scenario3_def STATE_FACTOR_def)
  have h2: "state scenario3 \<notin> set Object_prototype"
    by (simp add: scenario3_def Object_prototype_def)
  show ?thesis using h1 h2 unlisted_state_is_factor_one [OF h1 h2] by blast
qed

subsection \<open>C6: annual savings\<close>

text \<open>
  C6, as stated, says that the annual savings are exactly 12 times the monthly savings for
  every input. Line 44 is a binary64 product, which is rounded when 12 times the monthly
  savings is not a binary64 value: with the factors of the second scenario and a premium of
  100000000000000000 the monthly savings are 30000000000000008, and the annual savings are
  360000000000000128, not 360000000000000096.
\<close>

theorem annual_not_twelve_times_monthly_counterexample:
  "monthlySavings (App (scenario2_at 100000000000000000)) = Num 30000000000000008
   \<and> annualSavings (App (scenario2_at 100000000000000000)) = Num 360000000000000128
   \<and> (30000000000000008 :: real) * 12 \<noteq> 360000000000000128"
  by (simp add: scenario2_at_def App_eval)

text \<open>
  C6, amended: for every valid input with an integer current premium from 0 to \<open>2 ^ 49\<close>
  (562949953421312), the annual savings are exactly 12 times the monthly savings.
\<close>

theorem annual_is_twelve_times_monthly_in_range:
  assumes "state v \<notin> set Object_prototype"
    and "currentPremium v = of_int n" and "0 \<le> n" and "n \<le> 2 ^ 49"
  shows "\<exists>s. monthlySavings (App v) = Num s \<and> annualSavings (App v) = Num (s * 12)"
proof -
  let ?e = "rounded (state_num (state v)) v"
  have n53: "n < 2 ^ 53" using assms(4) by simp
  have d: "is_double (currentPremium v)"
    unfolding assms(2) using assms(3) n53 by (rule is_double_of_int)
  have p0: "0 \<le> currentPremium v" using assms(2,3) by simp
  note m = monthly_Num [OF assms(1,2,3) d]
  have e0: "0 \<le> ?e" using estimate_Num(2) [OF assms(1) p0 d] .
  have s0: "0 \<le> n - ?e" using m(1) by simp
  have "n - ?e < 2 ^ 53" using e0 n53 by simp
  with s0 have "fl (of_int (n - ?e)) = of_int (n - ?e)" by (rule fl_of_int)
  then have s: "monthlySavings (App v) = Num (of_int (n - ?e))" using m(2) by simp
  have a0: "0 \<le> (n - ?e) * 12" using s0 by simp
  have "(n - ?e) * 12 \<le> 2 ^ 49 * 12" using e0 assms(4) by simp
  then have a53: "(n - ?e) * 12 < 2 ^ 53" by simp
  have da: "is_double (of_int ((n - ?e) * 12))" using a0 a53 by (rule is_double_of_int)
  have "to_double (of_int ((n - ?e) * 12)) = Num (fl (of_int ((n - ?e) * 12)))"
    using to_double_finite [OF _ _ da, of "of_int ((n - ?e) * 12)"] a0 by simp
  also have "\<dots> = Num (of_int ((n - ?e) * 12))" using fl_of_int [OF a0 a53] by simp
  finally have "annualSavings (App v) = Num (of_int (n - ?e) * 12)"
    using App_fields(4) [OF assms(1)] s by (simp add: lit_consts)
  then show ?thesis using s by simp
qed

theorem annual_is_twelve_times_monthly_in_range_witness:
  "state initial_values \<notin> set Object_prototype
   \<and> currentPremium initial_values = of_int 180 \<and> (0::int) \<le> 180 \<and> (180::int) \<le> 2 ^ 49
   \<and> (\<exists>s. monthlySavings (App initial_values) = Num s
          \<and> annualSavings (App initial_values) = Num (s * 12))"
proof -
  have h1: "state initial_values \<notin> set Object_prototype"
    by (simp add: initial_values_def Object_prototype_def)
  have h2: "currentPremium initial_values = of_int 180" by (simp add: initial_values_def)
  have h3: "(0::int) \<le> 180" by simp
  have h4: "(180::int) \<le> 2 ^ 49" by simp
  show ?thesis using h1 h2 h3 h4 annual_is_twelve_times_monthly_in_range [OF h1 h2 h3 h4] by blast
qed

subsection \<open>C7: the first scenario\<close>

text \<open>
  C7: on the initial input (age 30-64, state CA, sedan, standard coverage, clean record,
  premium 180) the age factor is 1.00, the state factor 1.25, the vehicle factor 1.00, the
  history factor 0.85 (as a binary64 value), the risk adjustment 1.0625, the coverage
  factor 1.00, the baseline multiplier 1.0625, the savings multiplier the binary64 value
  3899587442052571 / 2^52, which is within \<open>1 / 2 ^ 52\<close> of 0.92/1.0625 and strictly between
  the two clamp bounds, the estimated new premium 156, the monthly savings 24 and the annual
  savings 288.
\<close>

theorem scenario1_values:
  "App initial_values =
     \<lparr> ageFactor = Num 1.00, stateFactor = Num 1.25, vehicleFactor = Num 1.00,
       coverageFactor = Num 1.00, historyFactor = Num (fl 0.85), riskAdjustment = Num 1.0625,
       baselineMultiplier = Num 1.0625,
       savingsMultiplier = Num (3899587442052571 / 4503599627370496),
       estimatedNewPremium = Num 156, monthlySavings = Num 24, annualSavings = Num 288 \<rparr>
   \<and> \<bar>3899587442052571 / 4503599627370496 - 0.92 / 1.0625\<bar> < (1 / 2 ^ 52 :: real)
   \<and> fl 0.70 < 3899587442052571 / 4503599627370496
   \<and> (3899587442052571 / 4503599627370496 :: real) < fl 1.00"
  by (simp add: initial_values_def App_eval)

subsection \<open>C8: the estimate and 70 percent of the premium\<close>

text \<open>
  C8, as stated, puts the estimated new premium at or above 70 percent of the current
  premium. With the factors of the second scenario the savings multiplier is 0.70; for a
  premium of 52 the product is about 36.4, which line 42 rounds down to 36, below 36.4.
\<close>

theorem premium_floor_counterexample:
  "estimatedNewPremium (App (scenario2_at 52)) = Num 36
   \<and> \<not> (0.70 * currentPremium (scenario2_at 52) \<le> 36)"
  by (simp add: scenario2_at_def App_eval)

text \<open>
  C8, amended: for every valid input with an integer current premium from 0 to \<open>2 ^ 49\<close>
  (562949953421312), the estimated new premium is at least 70 percent of the current
  premium minus one half (the most that rounding to a whole number can take away), and it
  is at most the current premium. For larger premiums the rounding of the product of line
  42 takes away more (lemma \<open>lower_bound_fails_for_large_premium\<close>).
\<close>

theorem premium_within_rounded_bounds:
  assumes "state v \<notin> set Object_prototype"
    and "currentPremium v = of_int n" and "0 \<le> n" and "n \<le> 2 ^ 49"
  shows "\<exists>e. estimatedNewPremium (App v) = Num e
           \<and> 0.70 * currentPremium v - 1 / 2 \<le> e
           \<and> e \<le> currentPremium v"
proof -
  let ?f = "state_num (state v)"
  let ?e = "rounded ?f v"
  let ?c = "3152519739159347 / 4503599627370496 :: real"
  let ?y = "fl (currentPremium v * mult ?f v)"
  have n53: "n < 2 ^ 53" using assms(4) by simp
  have d: "is_double (currentPremium v)"
    unfolding assms(2) using assms(3) n53 by (rule is_double_of_int)
  have p0: "0 \<le> currentPremium v" using assms(2,3) by simp
  note m = monthly_Num [OF assms(1,2,3) d]
  have up: "(of_int ?e :: real) \<le> currentPremium v" using m(1) assms(2) by simp
  have lo: "0.70 * currentPremium v - 1 / 2 \<le> of_int ?e"
  proof (cases "n = 0")
    case True
    then have "currentPremium v = 0" using assms(2) by simp
    then show ?thesis using estimate_Num(2) [OF assms(1) p0 d] by simp
  next
    case False
    then have n1: "1 \<le> n" using assms(3) by simp
    then have r1: "(1::real) \<le> of_int n" by simp
    have r49: "(of_int n :: real) \<le> 2 ^ 49"
      using assms(4) by (metis of_int_le_iff of_int_numeral of_int_power)
    have c: "?c \<le> mult ?f v" using mult_bounds [of ?f v] unfolding fl_070 by simp
    have x: "1 / 2 \<le> of_int n * ?c" using r1 by simp
    have "of_int n * ?c \<le> of_int n * mult ?f v" using c r1 by (intro mult_left_mono) simp_all
    moreover have "0 \<le> of_int n * ?c" using r1 by simp
    ultimately have "fl (of_int n * ?c) \<le> fl (of_int n * mult ?f v)" by (intro fl_mono)
    then have y: "of_int n * ?c - of_int n * ?c / 2 ^ 53 \<le> ?y"
      using fl_lower [OF x] assms(2) by simp
    have fl: "?y + 1 / 2 < of_int ?e + 1" unfolding rounded_def by linarith
    show ?thesis
    proof (rule ccontr)
      assume "\<not> 0.70 * currentPremium v - 1 / 2 \<le> of_int ?e"
      then have "(of_int (10 * ?e) :: real) < of_int (7 * n - 5)" using assms(2) by simp
      then have "10 * ?e < 7 * n - 5" by (simp only: of_int_less_iff)
      then have "10 * ?e \<le> 7 * n - 6" by simp
      then have "(of_int (10 * ?e) :: real) \<le> of_int (7 * n - 6)" by (simp only: of_int_le_iff)
      then have "10 * (of_int ?e :: real) \<le> 7 * of_int n - 6" by simp
      then show False using y fl r49 r1 by simp
    qed
  qed
  show ?thesis
    using estimate_Num(1) [OF assms(1) p0 d] up lo by simp
qed

theorem premium_within_rounded_bounds_witness:
  "state (scenario2_at 52) \<notin> set Object_prototype
   \<and> currentPremium (scenario2_at 52) = of_int 52 \<and> (0::int) \<le> 52 \<and> (52::int) \<le> 2 ^ 49
   \<and> (\<exists>e. estimatedNewPremium (App (scenario2_at 52)) = Num e
          \<and> 0.70 * currentPremium (scenario2_at 52) - 1 / 2 \<le> e
          \<and> e \<le> currentPremium (scenario2_at 52))"
proof -
  have h1: "state (scenario2_at 52) \<notin> set Object_prototype"
    by (simp add: scenario2_at_def Object_prototype_def)
  have h2: "currentPremium (scenario2_at 52) = of_int 52" by (simp add: scenario2_at_def)
  have h3: "(0::int) \<le> 52" by simp
  have h4: "(52::int) \<le> 2 ^ 49" by simp
  show ?thesis using h1 h2 h3 h4 premium_within_rounded_bounds [OF h1 h2 h3 h4] by blast
qed

subsection \<open>C9: a current premium of zero\<close>

text \<open>
  C9: when the current premium is 0 and the state is valid, the estimated new premium, the
  monthly savings and the annual savings are all 0, whatever the other fields are.
\<close>

theorem zero_premium_zero_savings:
  assumes "state v \<notin> set Object_prototype" and "currentPremium v = 0"
  shows "estimatedNewPremium (App v) = Num 0 \<and> monthlySavings (App v) = Num 0
         \<and> annualSavings (App v) = Num 0"
proof -
  have e: "estimatedNewPremium (App v) = Num 0"
    using App_fields(2) [OF assms(1)] assms(2) by (simp add: to_double_zero)
  have s: "monthlySavings (App v) = Num 0"
    using App_fields(3) [OF assms(1)] assms(2) e
    by (simp add: lit_consts to_double_zero)
  have "annualSavings (App v) = Num 0"
    using App_fields(4) [OF assms(1)] s
    by (simp add: lit_consts to_double_zero)
  then show ?thesis using e s by simp
qed

theorem zero_premium_zero_savings_witness:
  "state (initial_values\<lparr>currentPremium := 0\<rparr>) \<notin> set Object_prototype
   \<and> currentPremium (initial_values\<lparr>currentPremium := 0\<rparr>) = 0
   \<and> estimatedNewPremium (App (initial_values\<lparr>currentPremium := 0\<rparr>)) = Num 0
   \<and> monthlySavings (App (initial_values\<lparr>currentPremium := 0\<rparr>)) = Num 0
   \<and> annualSavings (App (initial_values\<lparr>currentPremium := 0\<rparr>)) = Num 0"
proof -
  let ?v = "initial_values\<lparr>currentPremium := 0\<rparr>"
  have h1: "state ?v \<notin> set Object_prototype"
    by (simp add: initial_values_def Object_prototype_def)
  have h2: "currentPremium ?v = 0" by simp
  show ?thesis using h1 h2 zero_premium_zero_savings [OF h1 h2] by blast
qed

subsection \<open>C10: the rounding convention\<close>

text \<open>
  C10: the estimated new premium is \<open>Math.round\<close> of the binary64 product of the current
  premium and the savings multiplier, that is, the product rounded to the nearest integer
  with a tie going towards plus infinity. For a valid input with a non-negative current
  premium the savings multiplier is at least 0.70, the product is a finite non-negative
  number, and there this result is also the product rounded with a tie going away from
  zero. The instance below is a tie: for the premium 55 the product is exactly 38.5 and the
  estimate is 39. For a negative premium the two conventions differ (lemma
  \<open>negative_tie_rounds_up\<close>).
\<close>

theorem estimate_rounds_half_up:
  assumes "state v \<notin> set Object_prototype"
    and "0 \<le> currentPremium v" and "is_double (currentPremium v)"
  shows "\<exists>m y. savingsMultiplier (App v) = Num m \<and> fl 0.70 \<le> m
           \<and> js_mul (Num (currentPremium v)) (Num m) = Num y \<and> 0 \<le> y
           \<and> estimatedNewPremium (App v) = Num (of_int (round_half_up y))
           \<and> round_half_up y = round_half_away_from_zero y"
proof -
  let ?m = "mult (state_num (state v)) v"
  let ?y = "fl (currentPremium v * ?m)"
  note pr = product_Num [OF assms(2,3), of "state_num (state v)" v]
  have sm: "savingsMultiplier (App v) = Num ?m" using assms(1) by (rule App_fields(1))
  have lo: "fl 0.70 \<le> ?m" using mult_bounds [of "state_num (state v)" v] by simp
  have p: "js_mul (Num (currentPremium v)) (Num ?m) = Num ?y" using pr by simp
  have y0: "0 \<le> ?y" using pr by simp
  have "estimatedNewPremium (App v) = Math_round (Num ?y)"
    using App_fields(2) [OF assms(1)] p by simp
  then have e: "estimatedNewPremium (App v) = Num (of_int (round_half_up ?y))"
    by (simp only: Math_round_half_up)
  show ?thesis using sm lo p y0 e half_up_is_half_away [OF y0] by blast
qed

theorem estimate_rounds_half_up_witness:
  "state (scenario2_at 55) \<notin> set Object_prototype \<and> 0 \<le> currentPremium (scenario2_at 55)
   \<and> is_double (currentPremium (scenario2_at 55))
   \<and> (\<exists>m y. savingsMultiplier (App (scenario2_at 55)) = Num m \<and> fl 0.70 \<le> m
          \<and> js_mul (Num (currentPremium (scenario2_at 55))) (Num m) = Num y \<and> 0 \<le> y
          \<and> estimatedNewPremium (App (scenario2_at 55)) = Num (of_int (round_half_up y))
          \<and> round_half_up y = round_half_away_from_zero y)
   \<and> js_mul (Num 55) (savingsMultiplier (App (scenario2_at 55))) = Num (77 / 2)
   \<and> estimatedNewPremium (App (scenario2_at 55)) = Num 39"
proof -
  have h1: "state (scenario2_at 55) \<notin> set Object_prototype"
    by (simp add: scenario2_at_def Object_prototype_def)
  have h2: "0 \<le> currentPremium (scenario2_at 55)" by (simp add: scenario2_at_def)
  have h3: "is_double (currentPremium (scenario2_at 55))" by (simp add: scenario2_at_def js_eval)
  show ?thesis using h1 h2 h3 estimate_rounds_half_up [OF h1 h2 h3] tie_at_55 by blast
qed

end
